theory Spec2Isabelle
  imports Main
begin

section \<open>JavaScript values and objects\<close>

text \<open>
  The values that flow through \<open>simple-rate-limiter.js\<close>. Numbers are the integers the
  program computes with (counts, quotas, window identifiers, all far below \<open>2^53\<close>, where
  a double is exact); \<open>JNaN\<close> is the number NaN. \<open>JBuiltin k\<close> is the member that every
  object literal inherits from \<open>Object.prototype\<close> under the property name \<open>k\<close>
  (a built-in function, or for \<open>__proto__\<close> the prototype object itself).
\<close>

datatype jsval =
    JUndefined
  | JNaN
  | JNum int
  | JStr string
  | JBool bool
  | JBuiltin string
  | JObject "(string \<times> jsval) list"

type_synonym jsobject = "(string \<times> jsval) list"

text \<open>The property names of \<open>Object.prototype\<close>, reachable from every object literal.\<close>

definition Object_prototype :: "string list" where
  "Object_prototype =
     [''constructor'', ''__defineGetter__'', ''__defineSetter__'', ''hasOwnProperty'',
      ''__lookupGetter__'', ''__lookupSetter__'', ''isPrototypeOf'',
      ''propertyIsEnumerable'', ''toString'', ''valueOf'', ''__proto__'',
      ''toLocaleString'']"

text \<open>
  \<open>obj[k]\<close> on an object literal: the own property when there is one, else the inherited
  member of \<open>Object.prototype\<close>, else \<open>undefined\<close>.
\<close>

definition js_get :: "jsobject \<Rightarrow> string \<Rightarrow> jsval" where
  "js_get obj k =
     (case map_of obj k of
        Some v \<Rightarrow> v
      | None \<Rightarrow> if List.member Object_prototype k then JBuiltin k else JUndefined)"

text \<open>ToBoolean.\<close>

fun truthy :: "jsval \<Rightarrow> bool" where
  "truthy JUndefined = False"
| "truthy JNaN = False"
| "truthy (JNum n) = (n \<noteq> 0)"
| "truthy (JStr s) = (s \<noteq> [])"
| "truthy (JBool b) = b"
| "truthy (JBuiltin k) = True"
| "truthy (JObject fs) = True"

text \<open>\<open>a || b\<close>.\<close>

definition js_or :: "jsval \<Rightarrow> jsval \<Rightarrow> jsval" where
  "js_or a b = (if truthy a then a else b)"

text \<open>
  Decimal rendering of an integer, as a template literal renders a number;
  \<open>digit_char d\<close> is the last decimal digit of \<open>d\<close>.
\<close>

definition digit_char :: "nat \<Rightarrow> char" where
  "digit_char d = ''0123456789'' ! (d mod 10)"

fun show_nat :: "nat \<Rightarrow> string" where
  "show_nat n = (if n < 10 then [digit_char n] else show_nat (n div 10) @ [digit_char n])"

definition show_int :: "int \<Rightarrow> string" where
  "show_int i = (if i < 0 then CHR ''-'' # show_nat (nat (- i)) else show_nat (nat i))"

text \<open>
  ToString, used for property keys and template literals. A built-in function prints as
  its native-code source text, the prototype object as \<open>[object Object]\<close>.
\<close>

fun js_to_string :: "jsval \<Rightarrow> string" where
  "js_to_string JUndefined = ''undefined''"
| "js_to_string JNaN = ''NaN''"
| "js_to_string (JNum n) = show_int n"
| "js_to_string (JStr s) = s"
| "js_to_string (JBool b) = (if b then ''true'' else ''false'')"
| "js_to_string (JBuiltin k) =
     (if k = ''__proto__'' then ''[object Object]''
      else ''function '' @ (if k = ''constructor'' then ''Object'' else k) @
           ''() { [native code] }'')"
| "js_to_string (JObject fs) = ''[object Object]''"

text \<open>
  \<open>count > userLimit\<close> and \<open>userLimit - count\<close> with \<open>count\<close> a number. The limit is
  a number or, for a tier that \<open>TIER_LIMITS\<close> does not hold, \<open>undefined\<close>, which converts
  to NaN: every comparison with NaN is false and every difference is NaN. (A limit is
  never a string or a boolean in this program; the equations give them NaN as well.)
\<close>

fun js_gt :: "int \<Rightarrow> jsval \<Rightarrow> bool" where
  "js_gt c (JNum q) = (c > q)"
| "js_gt c v = False"

fun js_minus :: "jsval \<Rightarrow> int \<Rightarrow> jsval" where
  "js_minus (JNum q) c = JNum (q - c)"
| "js_minus v c = JNaN"

section \<open>Configuration\<close>

text \<open>
  \<open>const WINDOW_SIZE = parseInt(process.env.WINDOW_SIZE) || 60\<close>. The argument is what
  \<open>parseInt\<close> returned: \<open>None\<close> for NaN (the variable is unset or does not start with a
  number), \<open>Some n\<close> for the integer read. NaN and 0 are falsy, so both give 60.
\<close>

type_synonym env = "int option"

definition WINDOW_SIZE :: "env \<Rightarrow> int" where
  "WINDOW_SIZE parsed = (case parsed of None \<Rightarrow> 60 | Some n \<Rightarrow> if n = 0 then 60 else n)"

definition API_KEYS :: jsobject where
  "API_KEYS =
     [(''sk_test_free_1'', JStr ''free''),
      (''sk_test_free_2'', JStr ''free''),
      (''sk_test_premium_1'', JStr ''premium''),
      (''sk_test_premium_2'', JStr ''premium''),
      (''sk_test_enterprise_1'', JStr ''enterprise'')]"

definition TIER_LIMITS :: jsobject where
  "TIER_LIMITS =
     [(''free'', JNum 5),
      (''premium'', JNum 20),
      (''enterprise'', JNum 100)]"

section \<open>Tier resolution\<close>

definition getTierFromAPIKey :: "string \<Rightarrow> jsval" where
  "getTierFromAPIKey apiKey = js_or (js_get API_KEYS apiKey) (JStr ''free'')"

definition getRateLimitForAPIKey :: "string \<Rightarrow> jsval" where
  "getRateLimitForAPIKey apiKey =
     (let tier = getTierFromAPIKey apiKey
      in js_get TIER_LIMITS (js_to_string tier))"

section \<open>Window clock\<close>

text \<open>
  \<open>Math.floor(now / (WINDOW_SIZE * 1000))\<close> with \<open>now = Date.now()\<close>, an integer number
  of milliseconds. \<open>WINDOW_SIZE\<close> is never 0, and \<open>div\<close> on \<open>int\<close> rounds towards minus
  infinity as \<open>Math.floor\<close> does, also for a negative divisor.
\<close>

definition getCurrentWindow :: "env \<Rightarrow> int \<Rightarrow> int" where
  "getCurrentWindow e now = now div (WINDOW_SIZE e * 1000)"

section \<open>The counting store client\<close>

text \<open>
  A rejected promise carries an \<open>Error\<close> with its message. The client of
  \<open>redis-client.js\<close> is used through two commands, each of which either resolves or
  rejects and may change the state \<open>'s\<close> of the store behind it.
\<close>

datatype error = Error string

record 's redisClient =
  incr :: "string \<Rightarrow> 's \<Rightarrow> (error + int) \<times> 's"
  expire :: "string \<Rightarrow> int \<Rightarrow> 's \<Rightarrow> (error + bool) \<times> 's"

section \<open>The limit decision\<close>

text \<open>
  The body of the \<open>try\<close> block of \<open>checkRateLimit\<close>: \<open>Inl\<close> is the error thrown by
  an awaited store command, \<open>Inr\<close> the object returned. Logging has no effect on the
  result and is left out.
\<close>

definition checkRateLimit_try ::
  "'s redisClient \<Rightarrow> env \<Rightarrow> string \<Rightarrow> jsval \<Rightarrow> jsval \<Rightarrow> 's \<Rightarrow> (error + jsobject) \<times> 's" where
  "checkRateLimit_try rc e redisKey userLimit tier s =
     (case incr rc redisKey s of
        (Inl err, s1) \<Rightarrow> (Inl err, s1)
      | (Inr count, s1) \<Rightarrow>
          (case (if count = 1 then expire rc redisKey (WINDOW_SIZE e * 2) s1
                 else (Inr True, s1)) of
             (Inl err, s2) \<Rightarrow> (Inl err, s2)
           | (Inr _, s2) \<Rightarrow>
               if js_gt count userLimit
               then (Inr [(''allowed'', JBool False), (''count'', JNum count),
                          (''limit'', userLimit), (''tier'', tier)], s2)
               else (let remaining = js_minus userLimit count
                     in (Inr [(''allowed'', JBool True), (''count'', JNum count),
                              (''limit'', userLimit), (''tier'', tier),
                              (''remaining'', remaining)], s2))))"

text \<open>
  \<open>checkRateLimit\<close>: the key is the template literal
  \<open>rate_limit:${apiKey}:${currentWindow}\<close>; the \<open>catch\<close> block turns every error of
  the \<open>try\<close> block into the fail-open object. \<open>now\<close> is what \<open>Date.now()\<close> returns.
\<close>

definition redisKey_of :: "string \<Rightarrow> int \<Rightarrow> string" where
  "redisKey_of apiKey currentWindow =
     ''rate_limit:'' @ apiKey @ '':'' @ show_int currentWindow"

definition checkRateLimit ::
  "'s redisClient \<Rightarrow> env \<Rightarrow> int \<Rightarrow> string \<Rightarrow> 's \<Rightarrow> jsobject \<times> 's" where
  "checkRateLimit rc e now apiKey s =
     (let currentWindow = getCurrentWindow e now;
          userLimit = getRateLimitForAPIKey apiKey;
          tier = getTierFromAPIKey apiKey;
          redisKey = redisKey_of apiKey currentWindow
      in case checkRateLimit_try rc e redisKey userLimit tier s of
           (Inr result, s') \<Rightarrow> (result, s')
         | (Inl err, s') \<Rightarrow>
             ([(''allowed'', JBool True), (''count'', JNum 0), (''limit'', userLimit),
               (''tier'', tier), (''remaining'', userLimit)], s'))"

section \<open>The request boundary\<close>

text \<open>
  The response built by the handler of \<open>GET /api/resource\<close>: the status, the headers set
  and the object given to \<open>res.json\<close>. \<open>res.setHeader\<close> throws on the value
  \<open>undefined\<close>; the handler has no \<open>try\<close>, so the error leaves it.
\<close>

record response =
  status :: nat
  headers :: jsobject
  body :: jsobject

definition setHeader :: "string \<Rightarrow> jsval \<Rightarrow> jsobject \<Rightarrow> error + jsobject" where
  "setHeader name v hs =
     (if v = JUndefined then Inl (Error ''ERR_HTTP_INVALID_HEADER_VALUE'')
      else Inr (hs @ [(name, v)]))"

definition set_headers :: "env \<Rightarrow> jsobject \<Rightarrow> error + jsobject" where
  "set_headers e result =
     (case setHeader ''X-RateLimit-Limit'' (js_get result ''limit'') [] of
        Inl err \<Rightarrow> Inl err
      | Inr h1 \<Rightarrow>
     (case setHeader ''X-RateLimit-Remaining''
             (js_or (js_get result ''remaining'') (JNum 0)) h1 of
        Inl err \<Rightarrow> Inl err
      | Inr h2 \<Rightarrow>
     (case setHeader ''X-RateLimit-Window'' (JNum (WINDOW_SIZE e)) h2 of
        Inl err \<Rightarrow> Inl err
      | Inr h3 \<Rightarrow> setHeader ''X-RateLimit-Tier'' (js_get result ''tier'') h3)))"

text \<open>
  The part of the handler after \<open>checkRateLimit\<close> has returned \<open>result\<close>.
\<close>

definition render :: "env \<Rightarrow> jsobject \<Rightarrow> error + response" where
  "render e result =
     (case set_headers e result of
        Inl err \<Rightarrow> Inl err
      | Inr hs \<Rightarrow>
          if \<not> truthy (js_get result ''allowed'')
          then Inr \<lparr>status = 429, headers = hs,
                    body = [(''error'', JStr ''Too many requests''),
                            (''message'', JStr (''Rate limit exceeded. Your tier ('' @
                               js_to_string (js_get result ''tier'') @ '') allows '' @
                               js_to_string (js_get result ''limit'') @ '' requests per '' @
                               show_int (WINDOW_SIZE e) @ '' seconds.'')),
                            (''retryAfter'', JNum (WINDOW_SIZE e)),
                            (''tier'', js_get result ''tier'')]\<rparr>
          else Inr \<lparr>status = 200, headers = hs,
                    body = [(''message'', JStr ''Success!''),
                            (''data'', JStr ''Here is your data''),
                            (''rateLimit'', JObject
                               [(''tier'', js_get result ''tier''),
                                (''limit'', js_get result ''limit''),
                                (''remaining'', js_get result ''remaining''),
                                (''windowSize'', JNum (WINDOW_SIZE e))])]\<rparr>)"

text \<open>
  The handler: \<open>apiKey\<close> is \<open>req.headers['x-api-key']\<close>, \<open>None\<close> when the header is
  missing; \<open>!apiKey\<close> holds for a missing and for an empty value.
\<close>

definition api_resource ::
  "'s redisClient \<Rightarrow> env \<Rightarrow> int \<Rightarrow> string option \<Rightarrow> 's \<Rightarrow> (error + response) \<times> 's" where
  "api_resource rc e now apiKey s =
     (case apiKey of
        None \<Rightarrow>
          (Inr \<lparr>status = 401, headers = [],
                body = [(''error'', JStr ''Unauthorized''),
                        (''message'', JStr ''API key required. Include X-API-Key header.'')]\<rparr>, s)
      | Some k \<Rightarrow>
          if k = [] then
            (Inr \<lparr>status = 401, headers = [],
                  body = [(''error'', JStr ''Unauthorized''),
                          (''message'', JStr ''API key required. Include X-API-Key header.'')]\<rparr>, s)
          else (case checkRateLimit rc e now k s of
                  (result, s') \<Rightarrow> (render e result, s')))"

section \<open>The shared store\<close>

text \<open>
  The store behind the client, an external service: per key a counter and, once set, a
  time to live in seconds. \<open>INCR\<close> creates a missing key at 1 and adds 1 to a present
  one; \<open>EXPIRE\<close> sets the time to live of a present key, and deletes the key when the
  time is not positive. Eviction by the passing of time is not part of the model. The
  faults of one call say which command, if any, is rejected; a rejected command leaves
  the store as it was.
\<close>

record store =
  counts :: "string \<rightharpoonup> int"
  ttls :: "string \<rightharpoonup> int"

record faults =
  incr_error :: "error option"
  expire_error :: "error option"

definition healthy :: faults where
  "healthy = \<lparr>incr_error = None, expire_error = None\<rparr>"

definition redis_incr :: "faults \<Rightarrow> string \<Rightarrow> store \<Rightarrow> (error + int) \<times> store" where
  "redis_incr f key s =
     (case incr_error f of
        Some err \<Rightarrow> (Inl err, s)
      | None \<Rightarrow>
          (let c = (case counts s key of None \<Rightarrow> 0 | Some c0 \<Rightarrow> c0) + 1
           in (Inr c, s\<lparr>counts := (counts s)(key \<mapsto> c)\<rparr>)))"

definition redis_expire :: "faults \<Rightarrow> string \<Rightarrow> int \<Rightarrow> store \<Rightarrow> (error + bool) \<times> store" where
  "redis_expire f key seconds s =
     (case expire_error f of
        Some err \<Rightarrow> (Inl err, s)
      | None \<Rightarrow>
          (case counts s key of
             None \<Rightarrow> (Inr False, s)
           | Some c \<Rightarrow>
               if seconds \<le> 0
               then (Inr True, s\<lparr>counts := (counts s)(key := None),
                                   ttls := (ttls s)(key := None)\<rparr>)
               else (Inr True, s\<lparr>ttls := (ttls s)(key \<mapsto> seconds)\<rparr>)))"

definition redis :: "faults \<Rightarrow> store redisClient" where
  "redis f = \<lparr>incr = redis_incr f, expire = redis_expire f\<rparr>"

text \<open>
  Sequential requests: each call has its own time, credential and faults; the store is
  threaded from one call to the next.
\<close>

fun run :: "env \<Rightarrow> (int \<times> string \<times> faults) list \<Rightarrow> store \<Rightarrow> jsobject list \<times> store" where
  "run e [] s = ([], s)"
| "run e ((now, apiKey, f) # cs) s =
     (case checkRateLimit (redis f) e now apiKey s of
        (d, s1) \<Rightarrow> (case run e cs s1 of (ds, s2) \<Rightarrow> (d # ds, s2)))"

text \<open>The counter the store holds for a key, 0 for a missing key.\<close>

definition count_of :: "store \<Rightarrow> string \<Rightarrow> int" where
  "count_of s key = (case counts s key of None \<Rightarrow> 0 | Some c \<Rightarrow> c)"

section \<open>Window identifiers\<close>

lemma window_of_seconds:
  assumes "0 < WINDOW_SIZE e"
  shows "getCurrentWindow e ms = ms div 1000 div WINDOW_SIZE e"
proof -
  have "ms div (1000 * WINDOW_SIZE e) = ms div 1000 div WINDOW_SIZE e"
    using assms by (simp add: zdiv_zmult2_eq)
  then show ?thesis by (simp add: getCurrentWindow_def mult.commute)
qed

lemma bucket_div:
  fixes s k w :: int
  assumes "0 < w" "k * w \<le> s" "s < (k + 1) * w"
  shows "s div w = k"
proof -
  have "s = w * k + (s - k * w)" by (simp add: mult.commute)
  moreover have "0 \<le> s - k * w" using assms by simp
  moreover have "s - k * w < w" using assms by (simp add: algebra_simps)
  ultimately show ?thesis
    using assms(1)
    by (metis div_pos_pos_trivial add.commute add.right_neutral div_mult_self2 less_irrefl)
qed

text \<open>
  C5. With a positive window length, the identifier computed from the milliseconds is
  the whole seconds divided by the window length, rounded down. Two timestamps whose
  seconds lie in the same bucket \<open>[k * W, (k + 1) * W)\<close> get the same identifier; a
  timestamp in bucket \<open>k\<close> and one in bucket \<open>k + 1\<close> get identifiers that differ by
  exactly 1.
\<close>

theorem window_identifier:
  "0 < WINDOW_SIZE e \<Longrightarrow>
   getCurrentWindow e ms = ms div 1000 div WINDOW_SIZE e \<and>
   (k * WINDOW_SIZE e \<le> ms1 div 1000 \<and> ms1 div 1000 < (k + 1) * WINDOW_SIZE e \<and>
    k * WINDOW_SIZE e \<le> ms2 div 1000 \<and> ms2 div 1000 < (k + 1) * WINDOW_SIZE e \<longrightarrow>
      getCurrentWindow e ms1 = getCurrentWindow e ms2) \<and>
   (k * WINDOW_SIZE e \<le> ms1 div 1000 \<and> ms1 div 1000 < (k + 1) * WINDOW_SIZE e \<and>
    (k + 1) * WINDOW_SIZE e \<le> ms2 div 1000 \<and> ms2 div 1000 < (k + 2) * WINDOW_SIZE e \<longrightarrow>
      getCurrentWindow e ms2 = getCurrentWindow e ms1 + 1)"
proof (intro conjI impI)
  assume w: "0 < WINDOW_SIZE e"
  show "getCurrentWindow e ms = ms div 1000 div WINDOW_SIZE e"
    using w by (rule window_of_seconds)
next
  assume w: "0 < WINDOW_SIZE e"
    and b: "k * WINDOW_SIZE e \<le> ms1 div 1000 \<and> ms1 div 1000 < (k + 1) * WINDOW_SIZE e \<and>
            k * WINDOW_SIZE e \<le> ms2 div 1000 \<and> ms2 div 1000 < (k + 1) * WINDOW_SIZE e"
  have "ms1 div 1000 div WINDOW_SIZE e = k" using w b by (intro bucket_div) simp_all
  moreover have "ms2 div 1000 div WINDOW_SIZE e = k" using w b by (intro bucket_div) simp_all
  ultimately show "getCurrentWindow e ms1 = getCurrentWindow e ms2"
    using w by (simp add: window_of_seconds)
next
  assume w: "0 < WINDOW_SIZE e"
    and b: "k * WINDOW_SIZE e \<le> ms1 div 1000 \<and> ms1 div 1000 < (k + 1) * WINDOW_SIZE e \<and>
            (k + 1) * WINDOW_SIZE e \<le> ms2 div 1000 \<and> ms2 div 1000 < (k + 2) * WINDOW_SIZE e"
  have "ms1 div 1000 div WINDOW_SIZE e = k" using w b by (intro bucket_div) simp_all
  moreover have "ms2 div 1000 div WINDOW_SIZE e = k + 1"
    using w b by (intro bucket_div) (simp_all add: algebra_simps)
  ultimately show "getCurrentWindow e ms2 = getCurrentWindow e ms1 + 1"
    using w by (simp add: window_of_seconds)
qed

theorem window_identifier_witness:
  "getCurrentWindow None 1700000039999 = 1700000039999 div 1000 div WINDOW_SIZE None \<and>
   getCurrentWindow None 1700000039999 = getCurrentWindow None 1699999980000 \<and>
   getCurrentWindow None 1700000040000 = getCurrentWindow None 1700000039999 + 1 \<and>
   getCurrentWindow None 1700000039999 = 28333333"
  using window_identifier [of None 1700000039999 28333333 1700000039999 1699999980000]
    window_identifier [of None 0 28333333 1700000039999 1700000040000]
  by (simp add: WINDOW_SIZE_def getCurrentWindow_def)

section \<open>The decision in terms of the store commands\<close>


lemma checkRateLimit_incr_rejected:
  assumes "incr rc (redisKey_of k (getCurrentWindow e now)) s = (Inl err, s1)"
  shows "checkRateLimit rc e now k s =
           ([(''allowed'', JBool True), (''count'', JNum 0),
             (''limit'', getRateLimitForAPIKey k), (''tier'', getTierFromAPIKey k),
             (''remaining'', getRateLimitForAPIKey k)], s1)"
  using assms by (simp add: checkRateLimit_def checkRateLimit_try_def Let_def)

lemma checkRateLimit_expire_rejected:
  assumes "incr rc (redisKey_of k (getCurrentWindow e now)) s = (Inr 1, s1)"
    and "expire rc (redisKey_of k (getCurrentWindow e now)) (WINDOW_SIZE e * 2) s1 = (Inl err, s2)"
  shows "checkRateLimit rc e now k s =
           ([(''allowed'', JBool True), (''count'', JNum 0),
             (''limit'', getRateLimitForAPIKey k), (''tier'', getTierFromAPIKey k),
             (''remaining'', getRateLimitForAPIKey k)], s2)"
  using assms by (simp add: checkRateLimit_def checkRateLimit_try_def Let_def)

lemma checkRateLimit_resolved:
  assumes "incr rc (redisKey_of k (getCurrentWindow e now)) s = (Inr c, s1)"
    and "(if c = 1 then expire rc (redisKey_of k (getCurrentWindow e now)) (WINDOW_SIZE e * 2) s1
          else (Inr True, s1)) = (Inr b, s2)"
  shows "checkRateLimit rc e now k s =
           (if js_gt c (getRateLimitForAPIKey k)
            then [(''allowed'', JBool False), (''count'', JNum c),
                  (''limit'', getRateLimitForAPIKey k), (''tier'', getTierFromAPIKey k)]
            else [(''allowed'', JBool True), (''count'', JNum c),
                  (''limit'', getRateLimitForAPIKey k), (''tier'', getTierFromAPIKey k),
                  (''remaining'', js_minus (getRateLimitForAPIKey k) c)], s2)"
  using assms by (simp add: checkRateLimit_def checkRateLimit_try_def Let_def)

lemma healthy_call:
  fixes e :: env and now :: int and k :: string and s :: store
  assumes "0 < WINDOW_SIZE e"
  defines "key \<equiv> redisKey_of k (getCurrentWindow e now)"
  defines "c \<equiv> count_of s key + 1"
  shows "checkRateLimit (redis healthy) e now k s =
           (if js_gt c (getRateLimitForAPIKey k)
            then [(''allowed'', JBool False), (''count'', JNum c),
                  (''limit'', getRateLimitForAPIKey k), (''tier'', getTierFromAPIKey k)]
            else [(''allowed'', JBool True), (''count'', JNum c),
                  (''limit'', getRateLimitForAPIKey k), (''tier'', getTierFromAPIKey k),
                  (''remaining'', js_minus (getRateLimitForAPIKey k) c)],
            s\<lparr>counts := (counts s)(key \<mapsto> c),
              ttls := (if c = 1 then (ttls s)(key \<mapsto> WINDOW_SIZE e * 2) else ttls s)\<rparr>)"
proof -
  let ?s1 = "s\<lparr>counts := (counts s)(key \<mapsto> c)\<rparr>"
  let ?s2 = "s\<lparr>counts := (counts s)(key \<mapsto> c),
              ttls := (if c = 1 then (ttls s)(key \<mapsto> WINDOW_SIZE e * 2) else ttls s)\<rparr>"
  have i: "incr (redis healthy) (redisKey_of k (getCurrentWindow e now)) s = (Inr c, ?s1)"
    by (simp add: redis_def redis_incr_def healthy_def c_def key_def count_of_def Let_def)
  have x: "(if c = 1 then expire (redis healthy) (redisKey_of k (getCurrentWindow e now))
                  (WINDOW_SIZE e * 2) ?s1
            else (Inr True, ?s1)) = (Inr True, ?s2)"
    using assms(1) by (simp add: redis_def redis_expire_def healthy_def key_def)
  show ?thesis
    using checkRateLimit_resolved [OF i x] by (simp add: key_def)
qed


lemma healthy_call_fields:
  fixes e :: env and now :: int and k :: string and s :: store
  assumes "0 < WINDOW_SIZE e"
  defines "key \<equiv> redisKey_of k (getCurrentWindow e now)"
  defines "c \<equiv> count_of s key + 1"
  defines "r \<equiv> checkRateLimit (redis healthy) e now k s"
  shows "js_get (fst r) ''count'' = JNum c"
    and "js_get (fst r) ''allowed'' = JBool (\<not> js_gt c (getRateLimitForAPIKey k))"
    and "count_of (snd r) key = c"
  using healthy_call [OF assms(1), where k = k and now = now and s = s]
  by (simp_all add: r_def c_def key_def js_get_def count_of_def)


lemma run_same_key:
  assumes "0 < WINDOW_SIZE e"
    and "\<forall>now\<in>set nows. getCurrentWindow e now = w"
    and "i < length nows"
  shows "js_get (fst (run e (map (\<lambda>now. (now, k, healthy)) nows) s) ! i) ''count'' =
           JNum (count_of s (redisKey_of k w) + 1 + int i) \<and>
         js_get (fst (run e (map (\<lambda>now. (now, k, healthy)) nows) s) ! i) ''allowed'' =
           JBool (\<not> js_gt (count_of s (redisKey_of k w) + 1 + int i) (getRateLimitForAPIKey k))"
  using assms(2,3)
proof (induction nows arbitrary: s i)
  case Nil
  then show ?case by simp
next
  case (Cons now nows)
  obtain d s1 where r: "checkRateLimit (redis healthy) e now k s = (d, s1)"
    by (cases "checkRateLimit (redis healthy) e now k s")
  have w: "getCurrentWindow e now = w" using Cons.prems by simp
  have d: "js_get d ''count'' = JNum (count_of s (redisKey_of k w) + 1)"
    "js_get d ''allowed'' = JBool (\<not> js_gt (count_of s (redisKey_of k w) + 1) (getRateLimitForAPIKey k))"
    "count_of s1 (redisKey_of k w) = count_of s (redisKey_of k w) + 1"
    using healthy_call_fields [OF assms(1), where k = k and now = now and s = s] r w by simp_all
  show ?case
  proof (cases i)
    case 0
    then show ?thesis using r d by (simp split: prod.splits)
  next
    case (Suc j)
    then have b: "j < length nows" using Cons.prems by simp
    have a: "\<forall>now\<in>set nows. getCurrentWindow e now = w" using Cons.prems by simp
    have "js_get (fst (run e (map (\<lambda>now. (now, k, healthy)) nows) s1) ! j) ''count'' =
           JNum (count_of s1 (redisKey_of k w) + 1 + int j) \<and>
         js_get (fst (run e (map (\<lambda>now. (now, k, healthy)) nows) s1) ! j) ''allowed'' =
           JBool (\<not> js_gt (count_of s1 (redisKey_of k w) + 1 + int j) (getRateLimitForAPIKey k))"
      by (rule Cons.IH [OF a b])
    moreover obtain ds s2 where "run e (map (\<lambda>now. (now, k, healthy)) nows) s1 = (ds, s2)"
      by (cases "run e (map (\<lambda>now. (now, k, healthy)) nows) s1")
    ultimately show ?thesis
      using r d Suc by (simp add: add.assoc)
  qed
qed

lemma quota_values:
  assumes "getRateLimitForAPIKey k = JNum Q"
  shows "Q = 5 \<or> Q = 20 \<or> Q = 100"
  using assms
  by (auto simp add: getRateLimitForAPIKey_def getTierFromAPIKey_def js_or_def js_get_def
      API_KEYS_def TIER_LIMITS_def Object_prototype_def split: if_splits)

text \<open>
  C1. For a credential with quota \<open>Q\<close> and a healthy store: whenever the increment
  resolves with the count \<open>c\<close> (and the expiry command, where it is issued, resolves
  too), the decision allows the request exactly when \<open>c \<le> Q\<close>. For \<open>Q + 1\<close> sequential
  calls of one credential in one window, on a key the store does not hold yet, the first
  \<open>Q\<close> decisions are allowed and the last one is denied.
\<close>

theorem quota_boundary:
  "getRateLimitForAPIKey k = JNum Q \<Longrightarrow>
   (incr rc (redisKey_of k (getCurrentWindow e now)) s0 = (Inr c, s1) \<and>
    (if c = 1 then expire rc (redisKey_of k (getCurrentWindow e now)) (WINDOW_SIZE e * 2) s1
     else (Inr True, s1)) = (Inr b, s2) \<longrightarrow>
      js_get (fst (checkRateLimit rc e now k s0)) ''allowed'' = JBool (c \<le> Q)) \<and>
   (0 < WINDOW_SIZE e \<and> counts s (redisKey_of k w) = None \<and>
    (\<forall>now\<in>set nows. getCurrentWindow e now = w) \<and> int (length nows) = Q + 1 \<longrightarrow>
      (\<forall>i < nat Q. js_get (fst (run e (map (\<lambda>now. (now, k, healthy)) nows) s) ! i) ''allowed''
                     = JBool True) \<and>
      js_get (fst (run e (map (\<lambda>now. (now, k, healthy)) nows) s) ! nat Q) ''allowed''
        = JBool False)"
proof (intro conjI impI allI)
  assume q: "getRateLimitForAPIKey k = JNum Q"
    and h: "incr rc (redisKey_of k (getCurrentWindow e now)) s0 = (Inr c, s1) \<and>
      (if c = 1 then expire rc (redisKey_of k (getCurrentWindow e now)) (WINDOW_SIZE e * 2) s1
       else (Inr True, s1)) = (Inr b, s2)"
  show "js_get (fst (checkRateLimit rc e now k s0)) ''allowed'' = JBool (c \<le> Q)"
    using checkRateLimit_resolved [OF conjunct1 [OF h] conjunct2 [OF h]] q
    by (auto simp add: js_get_def)
next
  fix i
  assume q: "getRateLimitForAPIKey k = JNum Q"
    and h: "0 < WINDOW_SIZE e \<and> counts s (redisKey_of k w) = None \<and>
      (\<forall>now\<in>set nows. getCurrentWindow e now = w) \<and> int (length nows) = Q + 1"
    and i: "i < nat Q"
  have "i < length nows" using h i by linarith
  then show "js_get (fst (run e (map (\<lambda>now. (now, k, healthy)) nows) s) ! i) ''allowed''
               = JBool True"
    using run_same_key [where e = e and nows = nows and w = w and i = i and k = k and s = s] h q i by (simp add: count_of_def)
next
  assume q: "getRateLimitForAPIKey k = JNum Q"
    and h: "0 < WINDOW_SIZE e \<and> counts s (redisKey_of k w) = None \<and>
      (\<forall>now\<in>set nows. getCurrentWindow e now = w) \<and> int (length nows) = Q + 1"
  have "0 \<le> Q" using quota_values [OF q] by auto
  moreover from this have "nat Q < length nows" using h by linarith
  ultimately show "js_get (fst (run e (map (\<lambda>now. (now, k, healthy)) nows) s) ! nat Q) ''allowed''
               = JBool False"
    using run_same_key [where e = e and nows = nows and w = w and i = "nat Q" and k = k and s = s] h q by (simp add: count_of_def)
qed


lemma free_key_window: "redisKey_of ''sk_test_free_1'' 28333333 = ''rate_limit:sk_test_free_1:28333333''"
  by (simp add: redisKey_of_def show_int_def digit_char_def)

lemma free_quota: "getRateLimitForAPIKey ''sk_test_free_1'' = JNum 5"
  by (simp add: getRateLimitForAPIKey_def getTierFromAPIKey_def js_or_def js_get_def
      API_KEYS_def TIER_LIMITS_def)

theorem quota_boundary_witness:
  "getRateLimitForAPIKey ''sk_test_free_1'' = JNum 5 \<and>
   js_get (fst (checkRateLimit (redis healthy) None 1700000000000 ''sk_test_free_1''
     \<lparr>counts = Map.empty, ttls = Map.empty\<rparr>)) ''allowed'' = JBool True \<and>
   js_get (fst (run None (map (\<lambda>now. (now, ''sk_test_free_1'', healthy))
       [1700000000000, 1700000001000, 1700000002000, 1700000003000, 1700000004000, 1700000005000])
     \<lparr>counts = Map.empty, ttls = Map.empty\<rparr>) ! 0) ''allowed'' = JBool True \<and>
   js_get (fst (run None (map (\<lambda>now. (now, ''sk_test_free_1'', healthy))
       [1700000000000, 1700000001000, 1700000002000, 1700000003000, 1700000004000, 1700000005000])
     \<lparr>counts = Map.empty, ttls = Map.empty\<rparr>) ! 4) ''allowed'' = JBool True \<and>
   js_get (fst (run None (map (\<lambda>now. (now, ''sk_test_free_1'', healthy))
       [1700000000000, 1700000001000, 1700000002000, 1700000003000, 1700000004000, 1700000005000])
     \<lparr>counts = Map.empty, ttls = Map.empty\<rparr>) ! 5) ''allowed'' = JBool False"
proof -
  let ?k = "''sk_test_free_1''"
  let ?key = "''rate_limit:sk_test_free_1:28333333''"
  let ?s = "\<lparr>counts = Map.empty, ttls = Map.empty\<rparr>"
  let ?s1 = "\<lparr>counts = [?key \<mapsto> 1], ttls = Map.empty\<rparr>"
  let ?s2 = "\<lparr>counts = [?key \<mapsto> 1], ttls = [?key \<mapsto> 120]\<rparr>"
  let ?nows = "[1700000000000, 1700000001000, 1700000002000, 1700000003000, 1700000004000,
                1700000005000] :: int list"
  have w: "getCurrentWindow None 1700000000000 = 28333333"
    by (simp add: getCurrentWindow_def WINDOW_SIZE_def)
  have h1: "incr (redis healthy) (redisKey_of ?k (getCurrentWindow None 1700000000000)) ?s
              = (Inr 1, ?s1) \<and>
            (if (1::int) = 1
             then expire (redis healthy) (redisKey_of ?k (getCurrentWindow None 1700000000000))
                    (WINDOW_SIZE None * 2) ?s1
             else (Inr True, ?s1)) = (Inr True, ?s2)"
    by (simp add: w free_key_window redis_def redis_incr_def redis_expire_def healthy_def
        WINDOW_SIZE_def)
  have h2: "0 < WINDOW_SIZE None \<and> counts ?s (redisKey_of ?k 28333333) = None \<and>
            (\<forall>now\<in>set ?nows. getCurrentWindow None now = 28333333) \<and>
            int (length ?nows) = 5 + 1"
    by (simp add: getCurrentWindow_def WINDOW_SIZE_def)
  note t = quota_boundary [OF free_quota, where rc = "redis healthy" and e = None
      and now = 1700000000000 and ?s0.0 = ?s and c = 1 and ?s1.0 = ?s1 and b = True
      and ?s2.0 = ?s2 and s = ?s and w = 28333333 and nows = ?nows]
  have a: "js_get (fst (checkRateLimit (redis healthy) None 1700000000000 ?k ?s)) ''allowed''
             = JBool ((1::int) \<le> 5)"
    using t h1 by blast
  have b: "\<forall>i < nat 5. js_get (fst (run None (map (\<lambda>now. (now, ?k, healthy)) ?nows) ?s) ! i)
             ''allowed'' = JBool True"
    using t h2 by blast
  have c: "js_get (fst (run None (map (\<lambda>now. (now, ?k, healthy)) ?nows) ?s) ! nat 5)
             ''allowed'' = JBool False"
    using t h2 by blast
  show ?thesis using free_quota a b [rule_format, of 0] b [rule_format, of 4] c by simp
qed

lemma free_tier: "getTierFromAPIKey ''sk_test_free_1'' = JStr ''free''"
  by (simp add: getTierFromAPIKey_def js_or_def js_get_def API_KEYS_def)

lemma window_1700000000000: "getCurrentWindow None 1700000000000 = 28333333"
  by (simp add: getCurrentWindow_def WINDOW_SIZE_def)

section \<open>The remaining field\<close>

text \<open>
  C2, as stated, fails on a denied decision: the object returned on denial has the fields
  \<open>allowed\<close>, \<open>count\<close>, \<open>limit\<close> and \<open>tier\<close> only. A free-tier credential whose
  counter stands at 5 gets the count 6 and an object without \<open>remaining\<close>, where the
  claim puts \<open>max 0 (5 - 6)\<close>.
\<close>

theorem denied_has_no_remaining:
  "fst (checkRateLimit (redis healthy) None 1700000000000 ''sk_test_free_1''
     \<lparr>counts = [''rate_limit:sk_test_free_1:28333333'' \<mapsto> 5],
      ttls = [''rate_limit:sk_test_free_1:28333333'' \<mapsto> 120]\<rparr>)
     = [(''allowed'', JBool False), (''count'', JNum 6), (''limit'', JNum 5),
        (''tier'', JStr ''free'')] \<and>
   map_of (fst (checkRateLimit (redis healthy) None 1700000000000 ''sk_test_free_1''
     \<lparr>counts = [''rate_limit:sk_test_free_1:28333333'' \<mapsto> 5],
      ttls = [''rate_limit:sk_test_free_1:28333333'' \<mapsto> 120]\<rparr>)) ''remaining'' = None \<and>
   js_get (fst (checkRateLimit (redis healthy) None 1700000000000 ''sk_test_free_1''
     \<lparr>counts = [''rate_limit:sk_test_free_1:28333333'' \<mapsto> 5],
      ttls = [''rate_limit:sk_test_free_1:28333333'' \<mapsto> 120]\<rparr>)) ''remaining''
     \<noteq> JNum (max 0 (5 - 6))"
proof -
  have "0 < WINDOW_SIZE None" by (simp add: WINDOW_SIZE_def)
  from healthy_call [OF this, where k = "''sk_test_free_1''" and now = 1700000000000
      and s = "\<lparr>counts = [''rate_limit:sk_test_free_1:28333333'' \<mapsto> 5],
                ttls = [''rate_limit:sk_test_free_1:28333333'' \<mapsto> 120]\<rparr>"]
  show ?thesis
    by (simp add: window_1700000000000 free_key_window free_quota free_tier count_of_def
        js_get_def Object_prototype_def)
qed

text \<open>
  C2, amended. For a credential with quota \<open>Q\<close> and an increment that resolves with
  \<open>c\<close>: an allowed decision carries \<open>remaining = Q - c\<close>, which is \<open>max 0 (Q - c)\<close>
  and so not negative; a denied decision carries no \<open>remaining\<close> field, and reading it
  gives \<open>undefined\<close>. The value the handler puts into the remaining header,
  \<open>result.remaining || 0\<close>, is \<open>max 0 (Q - c)\<close> in both cases.
\<close>

theorem remaining_of_decision:
  "getRateLimitForAPIKey k = JNum Q \<Longrightarrow>
   incr rc (redisKey_of k (getCurrentWindow e now)) s = (Inr c, s1) \<Longrightarrow>
   (if c = 1 then expire rc (redisKey_of k (getCurrentWindow e now)) (WINDOW_SIZE e * 2) s1
    else (Inr True, s1)) = (Inr b, s2) \<Longrightarrow>
   (if c \<le> Q
    then js_get (fst (checkRateLimit rc e now k s)) ''allowed'' = JBool True \<and>
         js_get (fst (checkRateLimit rc e now k s)) ''remaining'' = JNum (Q - c) \<and>
         Q - c = max 0 (Q - c)
    else js_get (fst (checkRateLimit rc e now k s)) ''allowed'' = JBool False \<and>
         map_of (fst (checkRateLimit rc e now k s)) ''remaining'' = None \<and>
         js_get (fst (checkRateLimit rc e now k s)) ''remaining'' = JUndefined) \<and>
   js_or (js_get (fst (checkRateLimit rc e now k s)) ''remaining'') (JNum 0)
     = JNum (max 0 (Q - c))"
proof -
  assume q: "getRateLimitForAPIKey k = JNum Q"
    and i: "incr rc (redisKey_of k (getCurrentWindow e now)) s = (Inr c, s1)"
    and x: "(if c = 1
             then expire rc (redisKey_of k (getCurrentWindow e now)) (WINDOW_SIZE e * 2) s1
             else (Inr True, s1)) = (Inr b, s2)"
  show ?thesis
  proof (cases "c \<le> Q")
    case True
    then show ?thesis
      using checkRateLimit_resolved [OF i x] q
      by (simp add: js_get_def js_or_def)
  next
    case False
    then show ?thesis
      using checkRateLimit_resolved [OF i x] q
      by (simp add: js_get_def js_or_def Object_prototype_def)
  qed
qed

theorem remaining_of_decision_witness:
  "js_get (fst (checkRateLimit (redis healthy) None 1700000000000 ''sk_test_free_1''
     \<lparr>counts = [''rate_limit:sk_test_free_1:28333333'' \<mapsto> 2],
      ttls = [''rate_limit:sk_test_free_1:28333333'' \<mapsto> 120]\<rparr>)) ''remaining'' = JNum 2 \<and>
   js_or (js_get (fst (checkRateLimit (redis healthy) None 1700000000000 ''sk_test_free_1''
     \<lparr>counts = [''rate_limit:sk_test_free_1:28333333'' \<mapsto> 2],
      ttls = [''rate_limit:sk_test_free_1:28333333'' \<mapsto> 120]\<rparr>)) ''remaining'') (JNum 0)
     = JNum 2"
proof -
  let ?key = "''rate_limit:sk_test_free_1:28333333''"
  let ?s = "\<lparr>counts = [?key \<mapsto> 2], ttls = [?key \<mapsto> 120]\<rparr>"
  let ?s1 = "\<lparr>counts = [?key \<mapsto> 3], ttls = [?key \<mapsto> 120]\<rparr>"
  have i: "incr (redis healthy)
             (redisKey_of ''sk_test_free_1'' (getCurrentWindow None 1700000000000)) ?s
             = (Inr 3, ?s1)"
    by (simp add: window_1700000000000 free_key_window redis_def redis_incr_def healthy_def)
  have x: "(if (3::int) = 1
            then expire (redis healthy)
                   (redisKey_of ''sk_test_free_1'' (getCurrentWindow None 1700000000000))
                   (WINDOW_SIZE None * 2) ?s1
            else (Inr True, ?s1)) = (Inr True, ?s1)"
    by simp
  show ?thesis
    using remaining_of_decision [OF free_quota i x] by (simp add: js_or_def)
qed

section \<open>Failing open\<close>

text \<open>
  C3, as stated, fails in its last part: the object returned when the increment is
  rejected has the five fields of an allowed decision and nothing that marks it as
  degraded; the failure is only logged.
\<close>

theorem fail_open_has_no_flag:
  "fst (checkRateLimit (redis \<lparr>incr_error = Some (Error ''ECONNREFUSED''), expire_error = None\<rparr>)
         None 1700000000000 ''sk_test_free_1'' \<lparr>counts = Map.empty, ttls = Map.empty\<rparr>)
     = [(''allowed'', JBool True), (''count'', JNum 0), (''limit'', JNum 5),
        (''tier'', JStr ''free''), (''remaining'', JNum 5)] \<and>
   map fst (fst (checkRateLimit
         (redis \<lparr>incr_error = Some (Error ''ECONNREFUSED''), expire_error = None\<rparr>)
         None 1700000000000 ''sk_test_free_1'' \<lparr>counts = Map.empty, ttls = Map.empty\<rparr>))
     = [''allowed'', ''count'', ''limit'', ''tier'', ''remaining''] \<and>
   js_get (fst (checkRateLimit
         (redis \<lparr>incr_error = Some (Error ''ECONNREFUSED''), expire_error = None\<rparr>)
         None 1700000000000 ''sk_test_free_1'' \<lparr>counts = Map.empty, ttls = Map.empty\<rparr>))
     ''degraded'' = JUndefined"
proof -
  have "incr (redis \<lparr>incr_error = Some (Error ''ECONNREFUSED''), expire_error = None\<rparr>)
          (redisKey_of ''sk_test_free_1'' (getCurrentWindow None 1700000000000))
          \<lparr>counts = Map.empty, ttls = Map.empty\<rparr>
        = (Inl (Error ''ECONNREFUSED''), \<lparr>counts = Map.empty, ttls = Map.empty\<rparr>)"
    by (simp add: redis_def redis_incr_def)
  from checkRateLimit_incr_rejected [OF this] show ?thesis
    by (simp add: free_quota free_tier js_get_def Object_prototype_def)
qed

text \<open>
  C3, amended. For every credential and every client: when the increment is rejected,
  the decision is the object with \<open>allowed = true\<close>, \<open>count = 0\<close>, the credential's limit
  as \<open>limit\<close> and as \<open>remaining\<close>, and its tier; it has these five fields and no other,
  so no flag, and the store is left as the rejected command left it.
\<close>

theorem fail_open:
  "incr rc (redisKey_of k (getCurrentWindow e now)) s = (Inl err, s1) \<Longrightarrow>
   checkRateLimit rc e now k s =
     ([(''allowed'', JBool True), (''count'', JNum 0), (''limit'', getRateLimitForAPIKey k),
       (''tier'', getTierFromAPIKey k), (''remaining'', getRateLimitForAPIKey k)], s1) \<and>
   js_get (fst (checkRateLimit rc e now k s)) ''allowed'' = JBool True \<and>
   js_get (fst (checkRateLimit rc e now k s)) ''count'' = JNum 0 \<and>
   js_get (fst (checkRateLimit rc e now k s)) ''remaining'' = getRateLimitForAPIKey k \<and>
   map fst (fst (checkRateLimit rc e now k s))
     = [''allowed'', ''count'', ''limit'', ''tier'', ''remaining'']"
proof -
  assume "incr rc (redisKey_of k (getCurrentWindow e now)) s = (Inl err, s1)"
  from checkRateLimit_incr_rejected [OF this] show ?thesis
    by (simp add: js_get_def)
qed

theorem fail_open_witness:
  "checkRateLimit (redis \<lparr>incr_error = Some (Error ''ETIMEDOUT''), expire_error = None\<rparr>)
     None 1700000000000 ''sk_test_premium_1''
     \<lparr>counts = [''rate_limit:sk_test_premium_1:28333333'' \<mapsto> 37], ttls = Map.empty\<rparr>
   = ([(''allowed'', JBool True), (''count'', JNum 0), (''limit'', JNum 20),
       (''tier'', JStr ''premium''), (''remaining'', JNum 20)],
      \<lparr>counts = [''rate_limit:sk_test_premium_1:28333333'' \<mapsto> 37], ttls = Map.empty\<rparr>)"
proof -
  have i: "incr (redis \<lparr>incr_error = Some (Error ''ETIMEDOUT''), expire_error = None\<rparr>)
          (redisKey_of ''sk_test_premium_1'' (getCurrentWindow None 1700000000000))
          \<lparr>counts = [''rate_limit:sk_test_premium_1:28333333'' \<mapsto> 37], ttls = Map.empty\<rparr>
        = (Inl (Error ''ETIMEDOUT''),
           \<lparr>counts = [''rate_limit:sk_test_premium_1:28333333'' \<mapsto> 37], ttls = Map.empty\<rparr>)"
    by (simp add: redis_def redis_incr_def)
  have q: "getRateLimitForAPIKey ''sk_test_premium_1'' = JNum 20"
    "getTierFromAPIKey ''sk_test_premium_1'' = JStr ''premium''"
    by (simp_all add: getRateLimitForAPIKey_def getTierFromAPIKey_def js_or_def js_get_def
        API_KEYS_def TIER_LIMITS_def)
  show ?thesis using fail_open [OF i] q by simp
qed

section \<open>The expiry of a key\<close>

text \<open>
  C4. For every client, the expiry command is issued exactly when the increment resolves
  with 1, with \<open>WINDOW_SIZE * 2\<close> seconds: the store after the call is the one the expiry
  command leaves in that case and the one the increment leaves in every other. On the
  store, with a positive window length and no fault: the call that counts 1 sets the
  key's time to live to \<open>WINDOW_SIZE * 2\<close>, which is at least twice the window length,
  and a call that counts anything else leaves every time to live as it was.
\<close>

theorem expiry_on_first_count:
  "(incr rc (redisKey_of k (getCurrentWindow e now)) s0 = (Inr c, s1) \<longrightarrow>
      snd (checkRateLimit rc e now k s0) =
        (if c = 1
         then snd (expire rc (redisKey_of k (getCurrentWindow e now)) (WINDOW_SIZE e * 2) s1)
         else s1)) \<and>
   (0 < WINDOW_SIZE e \<longrightarrow>
      ttls (snd (checkRateLimit (redis healthy) e now k s)) =
        (if count_of s (redisKey_of k (getCurrentWindow e now)) + 1 = 1
         then (ttls s)(redisKey_of k (getCurrentWindow e now) \<mapsto> WINDOW_SIZE e * 2)
         else ttls s) \<and>
      2 * WINDOW_SIZE e \<le> WINDOW_SIZE e * 2)"
proof (intro conjI impI)
  assume "incr rc (redisKey_of k (getCurrentWindow e now)) s0 = (Inr c, s1)"
  then show "snd (checkRateLimit rc e now k s0) =
        (if c = 1
         then snd (expire rc (redisKey_of k (getCurrentWindow e now)) (WINDOW_SIZE e * 2) s1)
         else s1)"
    by (simp add: checkRateLimit_def checkRateLimit_try_def Let_def
        split: prod.splits sum.splits)
next
  assume w: "0 < WINDOW_SIZE e"
  show "ttls (snd (checkRateLimit (redis healthy) e now k s)) =
        (if count_of s (redisKey_of k (getCurrentWindow e now)) + 1 = 1
         then (ttls s)(redisKey_of k (getCurrentWindow e now) \<mapsto> WINDOW_SIZE e * 2)
         else ttls s)"
    using healthy_call [OF w, where k = k and now = now and s = s] by simp
next
  show "2 * WINDOW_SIZE e \<le> WINDOW_SIZE e * 2" by simp
qed

theorem expiry_on_first_count_witness:
  "ttls (snd (checkRateLimit (redis healthy) None 1700000000000 ''sk_test_free_1''
      \<lparr>counts = Map.empty, ttls = Map.empty\<rparr>)) ''rate_limit:sk_test_free_1:28333333''
     = Some 120 \<and>
   ttls (snd (checkRateLimit (redis healthy) None 1700000000000 ''sk_test_free_1''
      \<lparr>counts = [''rate_limit:sk_test_free_1:28333333'' \<mapsto> 1], ttls = Map.empty\<rparr>))
     = Map.empty \<and>
   snd (checkRateLimit (redis healthy) None 1700000000000 ''sk_test_free_1''
      \<lparr>counts = [''rate_limit:sk_test_free_1:28333333'' \<mapsto> 1], ttls = Map.empty\<rparr>)
     = \<lparr>counts = [''rate_limit:sk_test_free_1:28333333'' \<mapsto> 2], ttls = Map.empty\<rparr>"
proof -
  let ?key = "''rate_limit:sk_test_free_1:28333333''"
  have w: "0 < WINDOW_SIZE None" by (simp add: WINDOW_SIZE_def)
  have i: "incr (redis healthy)
             (redisKey_of ''sk_test_free_1'' (getCurrentWindow None 1700000000000))
             \<lparr>counts = [?key \<mapsto> 1], ttls = Map.empty\<rparr>
           = (Inr 2, \<lparr>counts = [?key \<mapsto> 2], ttls = Map.empty\<rparr>)"
    by (simp add: window_1700000000000 free_key_window redis_def redis_incr_def healthy_def)
  note a = expiry_on_first_count [where e = None and now = 1700000000000
      and k = "''sk_test_free_1''" and s = "\<lparr>counts = Map.empty, ttls = Map.empty\<rparr>",
      THEN conjunct2, rule_format, OF w, THEN conjunct1]
  note b = expiry_on_first_count [where e = None and now = 1700000000000
      and k = "''sk_test_free_1''" and s = "\<lparr>counts = [?key \<mapsto> 1], ttls = Map.empty\<rparr>",
      THEN conjunct2, rule_format, OF w, THEN conjunct1]
  note c = expiry_on_first_count [where rc = "redis healthy" and e = None
      and now = 1700000000000 and k = "''sk_test_free_1''", THEN conjunct1, rule_format, OF i]
  show ?thesis using a b c
    by (simp add: window_1700000000000 free_key_window count_of_def WINDOW_SIZE_def)
qed

section \<open>Unknown credentials\<close>

text \<open>
  A credential that is neither a key of \<open>API_KEYS\<close> nor a property name of
  \<open>Object.prototype\<close> resolves to the tier \<open>free\<close> and to its quota 5.
\<close>

lemma unknown_credential_free:
  assumes "map_of API_KEYS k = None" and "\<not> List.member Object_prototype k"
  shows "getTierFromAPIKey k = JStr ''free''" and "getRateLimitForAPIKey k = JNum 5"
  using assms
  by (simp_all add: getRateLimitForAPIKey_def getTierFromAPIKey_def js_or_def js_get_def
      TIER_LIMITS_def)

text \<open>
  C6 at the credential \<open>constructor\<close>, which is not a key of \<open>API_KEYS\<close>:
  \<open>API_KEYS[apiKey]\<close> finds the inherited \<open>Object.prototype.constructor\<close>, a truthy
  value, so \<open>|| 'free'\<close> does not apply; the tier is that function, not \<open>free\<close>, and
  \<open>TIER_LIMITS[tier]\<close> is \<open>undefined\<close>, not 5. No count exceeds \<open>undefined\<close>: with the
  counter at 1000 the request is still allowed.
\<close>

theorem inherited_name_is_not_free:
  "map_of API_KEYS ''constructor'' = None \<and>
   getTierFromAPIKey ''constructor'' = JBuiltin ''constructor'' \<and>
   getRateLimitForAPIKey ''constructor'' = JUndefined \<and>
   fst (checkRateLimit (redis healthy) None 1700000000000 ''constructor''
     \<lparr>counts = [''rate_limit:constructor:28333333'' \<mapsto> 1000],
      ttls = [''rate_limit:constructor:28333333'' \<mapsto> 120]\<rparr>)
     = [(''allowed'', JBool True), (''count'', JNum 1001), (''limit'', JUndefined),
        (''tier'', JBuiltin ''constructor''), (''remaining'', JNaN)]"
proof -
  have t: "getTierFromAPIKey ''constructor'' = JBuiltin ''constructor''"
    by (simp add: getTierFromAPIKey_def js_or_def js_get_def API_KEYS_def Object_prototype_def)
  have q: "getRateLimitForAPIKey ''constructor'' = JUndefined"
    by (simp add: getRateLimitForAPIKey_def t js_get_def TIER_LIMITS_def Object_prototype_def)
  have k: "redisKey_of ''constructor'' 28333333 = ''rate_limit:constructor:28333333''"
    by (simp add: redisKey_of_def show_int_def digit_char_def)
  have w: "0 < WINDOW_SIZE None" by (simp add: WINDOW_SIZE_def)
  have "map_of API_KEYS ''constructor'' = None" by (simp add: API_KEYS_def)
  then show ?thesis
    using healthy_call [OF w, where k = "''constructor''" and now = 1700000000000
      and s = "\<lparr>counts = [''rate_limit:constructor:28333333'' \<mapsto> 1000],
                ttls = [''rate_limit:constructor:28333333'' \<mapsto> 120]\<rparr>"]
    by (simp add: t q k window_1700000000000 count_of_def)
qed

section \<open>The configured window length\<close>

text \<open>
  C7, as stated, fails: nothing checks the window length. The configured length \<open>-5\<close> is
  taken as it is, and a decision is computed with it (the window identifier comes out
  negative, and the expiry of \<open>-10\<close> seconds deletes the key at once); the configured
  length 0 is not rejected either, it becomes 60.
\<close>

theorem negative_window_is_accepted:
  "WINDOW_SIZE (Some (- 5)) = - 5 \<and>
   WINDOW_SIZE (Some 0) = 60 \<and>
   getCurrentWindow (Some (- 5)) 1700000000000 = - 340000000 \<and>
   checkRateLimit (redis healthy) (Some (- 5)) 1700000000000 ''sk_test_free_1''
     \<lparr>counts = Map.empty, ttls = Map.empty\<rparr>
     = ([(''allowed'', JBool True), (''count'', JNum 1), (''limit'', JNum 5),
         (''tier'', JStr ''free''), (''remaining'', JNum 4)],
        \<lparr>counts = Map.empty, ttls = Map.empty\<rparr>)"
proof -
  let ?key = "''rate_limit:sk_test_free_1:-340000000''"
  let ?s = "\<lparr>counts = Map.empty, ttls = Map.empty\<rparr>"
  have ws: "WINDOW_SIZE (Some (- 5)) = - 5" by (simp add: WINDOW_SIZE_def)
  have w: "getCurrentWindow (Some (- 5)) 1700000000000 = - 340000000"
    by (simp add: getCurrentWindow_def ws)
  have k: "redisKey_of ''sk_test_free_1'' (- 340000000) = ?key"
    by (simp add: redisKey_of_def show_int_def digit_char_def)
  have i: "incr (redis healthy)
             (redisKey_of ''sk_test_free_1'' (getCurrentWindow (Some (- 5)) 1700000000000)) ?s
           = (Inr 1, \<lparr>counts = [?key \<mapsto> 1], ttls = Map.empty\<rparr>)"
    by (simp add: w k redis_def redis_incr_def healthy_def)
  have x: "(if (1::int) = 1
            then expire (redis healthy)
                   (redisKey_of ''sk_test_free_1'' (getCurrentWindow (Some (- 5)) 1700000000000))
                   (WINDOW_SIZE (Some (- 5)) * 2) \<lparr>counts = [?key \<mapsto> 1], ttls = Map.empty\<rparr>
            else (Inr True, \<lparr>counts = [?key \<mapsto> 1], ttls = Map.empty\<rparr>))
           = (Inr True, ?s)"
    by (simp add: w k ws redis_def redis_expire_def healthy_def)
  have "WINDOW_SIZE (Some 0) = 60" by (simp add: WINDOW_SIZE_def)
  then show ?thesis
    using checkRateLimit_resolved [OF i x] ws w by (simp add: free_quota free_tier)
qed

text \<open>
  C7, amended. A window length that is unset, unparsable or zero becomes the default 60,
  so the window length in use is never zero; every other configured value, a negative
  one included, is used as it is. There is no rejection: \<open>WINDOW_SIZE\<close> has a value for
  every configuration.
\<close>

theorem window_size_fallback:
  "WINDOW_SIZE None = 60 \<and>
   WINDOW_SIZE (Some 0) = 60 \<and>
   WINDOW_SIZE (Some n) = (if n = 0 then 60 else n) \<and>
   WINDOW_SIZE e \<noteq> 0"
  by (simp add: WINDOW_SIZE_def split: option.splits)

section \<open>Every call returns a decision\<close>

lemma decision_cases:
  fixes rc :: "'s redisClient"
  defines "L \<equiv> \<lambda>k. getRateLimitForAPIKey k" and "T \<equiv> \<lambda>k. getTierFromAPIKey k"
  shows "(\<exists>c. js_gt c (L k) \<and> fst (checkRateLimit rc e now k s) =
            [(''allowed'', JBool False), (''count'', JNum c), (''limit'', L k),
             (''tier'', T k)]) \<or>
         (\<exists>c. fst (checkRateLimit rc e now k s) =
            [(''allowed'', JBool True), (''count'', JNum c), (''limit'', L k),
             (''tier'', T k), (''remaining'', js_minus (L k) c)]) \<or>
         fst (checkRateLimit rc e now k s) =
            [(''allowed'', JBool True), (''count'', JNum 0), (''limit'', L k),
             (''tier'', T k), (''remaining'', L k)]"
  by (auto simp add: checkRateLimit_def checkRateLimit_try_def Let_def L_def T_def
      split: prod.splits sum.splits if_splits)

lemma tier_defined: "getTierFromAPIKey k \<noteq> JUndefined"
  by (cases "js_get API_KEYS k") (simp_all add: getTierFromAPIKey_def js_or_def)

lemma js_gt_number: "js_gt c v \<Longrightarrow> \<exists>q. v = JNum q"
  by (cases v) simp_all

lemma remaining_header_defined: "js_or v (JNum 0) \<noteq> JUndefined"
  by (cases v) (simp_all add: js_or_def)

lemma render_defined:
  assumes "js_get d ''limit'' \<noteq> JUndefined" and "js_get d ''tier'' \<noteq> JUndefined"
  shows "\<exists>b. render e d =
           Inr \<lparr>status = (if truthy (js_get d ''allowed'') then 200 else 429),
                headers = [(''X-RateLimit-Limit'', js_get d ''limit''),
                           (''X-RateLimit-Remaining'', js_or (js_get d ''remaining'') (JNum 0)),
                           (''X-RateLimit-Window'', JNum (WINDOW_SIZE e)),
                           (''X-RateLimit-Tier'', js_get d ''tier'')],
                body = b\<rparr> \<and>
           (\<not> truthy (js_get d ''allowed'') \<longrightarrow>
              js_get b ''retryAfter'' = JNum (WINDOW_SIZE e) \<and>
              js_get b ''tier'' = js_get d ''tier'')"
  using assms remaining_header_defined [of "js_get d ''remaining''"]
  by (simp add: render_def set_headers_def setHeader_def) (simp add: js_get_def)


lemma api_resource_render:
  "k \<noteq> [] \<Longrightarrow>
   fst (api_resource rc e now (Some k) s) = render e (fst (checkRateLimit rc e now k s))"
  by (simp add: api_resource_def split: prod.splits)

lemma decision_fields:
  "\<exists>a c. js_get (fst (checkRateLimit rc e now k s)) ''allowed'' = JBool a \<and>
         js_get (fst (checkRateLimit rc e now k s)) ''count'' = JNum c \<and>
         js_get (fst (checkRateLimit rc e now k s)) ''limit'' = getRateLimitForAPIKey k \<and>
         js_get (fst (checkRateLimit rc e now k s)) ''tier'' = getTierFromAPIKey k"
  using decision_cases [of k rc e now s] by (auto simp add: js_get_def)

text \<open>
  What holds for every client, whatever its commands do: \<open>checkRateLimit\<close> returns an
  object with a boolean \<open>allowed\<close>, a numeric \<open>count\<close>, the credential's limit and its
  tier; when the increment or the expiry command is rejected, that object allows the
  request with the count 0. For a credential whose limit is a number the handler answers
  with the status 200 or 429.
\<close>

lemma quota_credential_answered:
  "(\<exists>a c. js_get (fst (checkRateLimit rc e now k s)) ''allowed'' = JBool a \<and>
          js_get (fst (checkRateLimit rc e now k s)) ''count'' = JNum c \<and>
          js_get (fst (checkRateLimit rc e now k s)) ''limit'' = getRateLimitForAPIKey k \<and>
          js_get (fst (checkRateLimit rc e now k s)) ''tier'' = getTierFromAPIKey k) \<and>
   (incr rc (redisKey_of k (getCurrentWindow e now)) s = (Inl err, s1) \<longrightarrow>
      js_get (fst (checkRateLimit rc e now k s)) ''allowed'' = JBool True \<and>
      js_get (fst (checkRateLimit rc e now k s)) ''count'' = JNum 0) \<and>
   (incr rc (redisKey_of k (getCurrentWindow e now)) s = (Inr 1, s1) \<and>
    expire rc (redisKey_of k (getCurrentWindow e now)) (WINDOW_SIZE e * 2) s1 = (Inl err, s2) \<longrightarrow>
      js_get (fst (checkRateLimit rc e now k s)) ''allowed'' = JBool True \<and>
      js_get (fst (checkRateLimit rc e now k s)) ''count'' = JNum 0) \<and>
   (k \<noteq> [] \<and> getRateLimitForAPIKey k = JNum Q \<longrightarrow>
      (\<exists>r. fst (api_resource rc e now (Some k) s) = Inr r \<and>
           (status r = 200 \<or> status r = 429)))"
proof (intro conjI impI)
  show "\<exists>a c. js_get (fst (checkRateLimit rc e now k s)) ''allowed'' = JBool a \<and>
          js_get (fst (checkRateLimit rc e now k s)) ''count'' = JNum c \<and>
          js_get (fst (checkRateLimit rc e now k s)) ''limit'' = getRateLimitForAPIKey k \<and>
          js_get (fst (checkRateLimit rc e now k s)) ''tier'' = getTierFromAPIKey k"
    by (rule decision_fields)
next
  assume i: "incr rc (redisKey_of k (getCurrentWindow e now)) s = (Inl err, s1)"
  show "js_get (fst (checkRateLimit rc e now k s)) ''allowed'' = JBool True"
    and "js_get (fst (checkRateLimit rc e now k s)) ''count'' = JNum 0"
    using checkRateLimit_incr_rejected [OF i] by (simp_all add: js_get_def)
next
  assume x: "incr rc (redisKey_of k (getCurrentWindow e now)) s = (Inr 1, s1) \<and>
    expire rc (redisKey_of k (getCurrentWindow e now)) (WINDOW_SIZE e * 2) s1 = (Inl err, s2)"
  show "js_get (fst (checkRateLimit rc e now k s)) ''allowed'' = JBool True"
    and "js_get (fst (checkRateLimit rc e now k s)) ''count'' = JNum 0"
    using checkRateLimit_expire_rejected [OF conjunct1 [OF x] conjunct2 [OF x]]
    by (simp_all add: js_get_def)
next
  assume q: "k \<noteq> [] \<and> getRateLimitForAPIKey k = JNum Q"
  obtain a c where d: "js_get (fst (checkRateLimit rc e now k s)) ''allowed'' = JBool a"
    "js_get (fst (checkRateLimit rc e now k s)) ''limit'' = getRateLimitForAPIKey k"
    "js_get (fst (checkRateLimit rc e now k s)) ''tier'' = getTierFromAPIKey k"
    using decision_fields [of rc e now k s] by blast
  have "js_get (fst (checkRateLimit rc e now k s)) ''limit'' \<noteq> JUndefined"
    using d q by simp
  moreover have "js_get (fst (checkRateLimit rc e now k s)) ''tier'' \<noteq> JUndefined"
    using d tier_defined by simp
  ultimately obtain b where
    "render e (fst (checkRateLimit rc e now k s)) =
       Inr \<lparr>status = (if truthy (js_get (fst (checkRateLimit rc e now k s)) ''allowed'')
                       then 200 else 429),
            headers = [(''X-RateLimit-Limit'', js_get (fst (checkRateLimit rc e now k s)) ''limit''),
                       (''X-RateLimit-Remaining'',
                        js_or (js_get (fst (checkRateLimit rc e now k s)) ''remaining'') (JNum 0)),
                       (''X-RateLimit-Window'', JNum (WINDOW_SIZE e)),
                       (''X-RateLimit-Tier'', js_get (fst (checkRateLimit rc e now k s)) ''tier'')],
            body = b\<rparr>"
    using render_defined [of "fst (checkRateLimit rc e now k s)" e] by blast
  then show "\<exists>r. fst (api_resource rc e now (Some k) s) = Inr r \<and>
           (status r = 200 \<or> status r = 429)"
    using q by (simp add: api_resource_render)
qed

lemma quota_credential_answered_example:
  "js_get (fst (checkRateLimit
       (redis \<lparr>incr_error = Some (Error ''ECONNREFUSED''), expire_error = None\<rparr>)
       None 1700000000000 ''sk_test_free_1'' \<lparr>counts = Map.empty, ttls = Map.empty\<rparr>))
     ''allowed'' = JBool True \<and>
   (\<exists>r. fst (api_resource
       (redis \<lparr>incr_error = Some (Error ''ECONNREFUSED''), expire_error = None\<rparr>)
       None 1700000000000 (Some ''sk_test_free_1'') \<lparr>counts = Map.empty, ttls = Map.empty\<rparr>)
       = Inr r \<and> (status r = 200 \<or> status r = 429))"
proof -
  let ?rc = "redis \<lparr>incr_error = Some (Error ''ECONNREFUSED''), expire_error = None\<rparr>"
  let ?s = "\<lparr>counts = Map.empty, ttls = Map.empty\<rparr>"
  have i: "incr ?rc (redisKey_of ''sk_test_free_1'' (getCurrentWindow None 1700000000000)) ?s
             = (Inl (Error ''ECONNREFUSED''), ?s)"
    by (simp add: redis_def redis_incr_def)
  have q: "''sk_test_free_1'' \<noteq> [] \<and> getRateLimitForAPIKey ''sk_test_free_1'' = JNum 5"
    using free_quota by simp
  note t = quota_credential_answered [where rc = ?rc and e = None and now = 1700000000000
      and k = "''sk_test_free_1''" and s = ?s and err = "Error ''ECONNREFUSED''"
      and ?s1.0 = ?s and Q = 5]
  show ?thesis using t i q by blast
qed




lemma render_denied:
  assumes "T \<noteq> JUndefined"
  shows "render e [(''allowed'', JBool False), (''count'', JNum c), (''limit'', JNum Q),
                   (''tier'', T)] =
     Inr \<lparr>status = 429,
          headers = [(''X-RateLimit-Limit'', JNum Q), (''X-RateLimit-Remaining'', JNum 0),
                     (''X-RateLimit-Window'', JNum (WINDOW_SIZE e)), (''X-RateLimit-Tier'', T)],
          body = [(''error'', JStr ''Too many requests''),
                  (''message'', JStr (''Rate limit exceeded. Your tier ('' @ js_to_string T @
                     '') allows '' @ js_to_string (JNum Q) @ '' requests per '' @
                     show_int (WINDOW_SIZE e) @ '' seconds.'')),
                  (''retryAfter'', JNum (WINDOW_SIZE e)),
                  (''tier'', T)]\<rparr>"
proof -
  let ?d = "[(''allowed'', JBool False), (''count'', JNum c), (''limit'', JNum Q), (''tier'', T)]"
  have g: "js_get ?d ''allowed'' = JBool False" "js_get ?d ''limit'' = JNum Q"
    "js_get ?d ''tier'' = T" "js_get ?d ''remaining'' = JUndefined"
    by (simp_all add: js_get_def Object_prototype_def)
  have h: "set_headers e ?d =
     Inr [(''X-RateLimit-Limit'', JNum Q), (''X-RateLimit-Remaining'', JNum 0),
          (''X-RateLimit-Window'', JNum (WINDOW_SIZE e)), (''X-RateLimit-Tier'', T)]"
    using assms by (simp only: set_headers_def g) (simp add: setHeader_def js_or_def)
  show ?thesis
    by (simp only: render_def h g) simp
qed

lemma render_allowed:
  assumes "T \<noteq> JUndefined"
  shows "render e [(''allowed'', JBool True), (''count'', JNum c), (''limit'', JNum Q),
                   (''tier'', T), (''remaining'', JNum n)] =
     Inr \<lparr>status = 200,
          headers = [(''X-RateLimit-Limit'', JNum Q), (''X-RateLimit-Remaining'', JNum n),
                     (''X-RateLimit-Window'', JNum (WINDOW_SIZE e)), (''X-RateLimit-Tier'', T)],
          body = [(''message'', JStr ''Success!''),
                  (''data'', JStr ''Here is your data''),
                  (''rateLimit'', JObject
                     [(''tier'', T), (''limit'', JNum Q), (''remaining'', JNum n),
                      (''windowSize'', JNum (WINDOW_SIZE e))])]\<rparr>"
proof -
  let ?d = "[(''allowed'', JBool True), (''count'', JNum c), (''limit'', JNum Q), (''tier'', T),
             (''remaining'', JNum n)]"
  have g: "js_get ?d ''allowed'' = JBool True" "js_get ?d ''limit'' = JNum Q"
    "js_get ?d ''tier'' = T" "js_get ?d ''remaining'' = JNum n"
    by (simp_all add: js_get_def)
  have o: "js_or (JNum n) (JNum 0) = JNum n" by (simp add: js_or_def)
  have h: "set_headers e ?d =
     Inr [(''X-RateLimit-Limit'', JNum Q), (''X-RateLimit-Remaining'', JNum n),
          (''X-RateLimit-Window'', JNum (WINDOW_SIZE e)), (''X-RateLimit-Tier'', T)]"
    using assms by (simp only: set_headers_def g o) (simp add: setHeader_def)
  show ?thesis
    by (simp only: render_def h g) simp
qed

section \<open>Rendering a decision\<close>

text \<open>
  For a request that carries a credential: when the decision is denied, the response
  has the status 429, the body's \<open>retryAfter\<close> is the window length and its \<open>tier\<close> the
  tier, and the headers give the limit, 0 as remaining, the window length and the tier.
  When the decision is allowed and its limit is a number, the response has the status
  200, with the limit, the decision's remaining, the window length and the tier in the
  headers and in the body's \<open>rateLimit\<close>.
\<close>

lemma rendering_with_quota:
  "k \<noteq> [] \<Longrightarrow>
   (js_get (fst (checkRateLimit rc e now k s)) ''allowed'' = JBool False \<longrightarrow>
      (\<exists>r Q. fst (api_resource rc e now (Some k) s) = Inr r \<and>
         status r = 429 \<and>
         js_get (body r) ''retryAfter'' = JNum (WINDOW_SIZE e) \<and>
         js_get (body r) ''tier'' = getTierFromAPIKey k \<and>
         getRateLimitForAPIKey k = JNum Q \<and>
         headers r = [(''X-RateLimit-Limit'', JNum Q),
                      (''X-RateLimit-Remaining'', JNum 0),
                      (''X-RateLimit-Window'', JNum (WINDOW_SIZE e)),
                      (''X-RateLimit-Tier'', getTierFromAPIKey k)])) \<and>
   (js_get (fst (checkRateLimit rc e now k s)) ''allowed'' = JBool True \<and>
    getRateLimitForAPIKey k = JNum Q' \<longrightarrow>
      (\<exists>r. fst (api_resource rc e now (Some k) s) = Inr r \<and>
         status r = 200 \<and>
         headers r = [(''X-RateLimit-Limit'', JNum Q'),
                      (''X-RateLimit-Remaining'',
                       js_get (fst (checkRateLimit rc e now k s)) ''remaining''),
                      (''X-RateLimit-Window'', JNum (WINDOW_SIZE e)),
                      (''X-RateLimit-Tier'', getTierFromAPIKey k)] \<and>
         js_get (body r) ''rateLimit'' = JObject
           [(''tier'', getTierFromAPIKey k), (''limit'', JNum Q'),
            (''remaining'', js_get (fst (checkRateLimit rc e now k s)) ''remaining''),
            (''windowSize'', JNum (WINDOW_SIZE e))]))"
proof (intro conjI impI)
  assume k: "k \<noteq> []"
    and a: "js_get (fst (checkRateLimit rc e now k s)) ''allowed'' = JBool False"
  from decision_cases [of k rc e now s] a obtain c where
    c: "js_gt c (getRateLimitForAPIKey k)"
    and d: "fst (checkRateLimit rc e now k s) =
              [(''allowed'', JBool False), (''count'', JNum c),
               (''limit'', getRateLimitForAPIKey k), (''tier'', getTierFromAPIKey k)]"
    by (auto simp add: js_get_def)
  from js_gt_number [OF c] obtain Q where q: "getRateLimitForAPIKey k = JNum Q" ..
  have "fst (api_resource rc e now (Some k) s) =
          render e [(''allowed'', JBool False), (''count'', JNum c), (''limit'', JNum Q),
                    (''tier'', getTierFromAPIKey k)]"
    using k d q by (simp add: api_resource_render)
  then have "fst (api_resource rc e now (Some k) s) =
     Inr \<lparr>status = 429,
          headers = [(''X-RateLimit-Limit'', JNum Q), (''X-RateLimit-Remaining'', JNum 0),
                     (''X-RateLimit-Window'', JNum (WINDOW_SIZE e)),
                     (''X-RateLimit-Tier'', getTierFromAPIKey k)],
          body = [(''error'', JStr ''Too many requests''),
                  (''message'', JStr (''Rate limit exceeded. Your tier ('' @
                     js_to_string (getTierFromAPIKey k) @
                     '') allows '' @ js_to_string (JNum Q) @ '' requests per '' @
                     show_int (WINDOW_SIZE e) @ '' seconds.'')),
                  (''retryAfter'', JNum (WINDOW_SIZE e)),
                  (''tier'', getTierFromAPIKey k)]\<rparr>"
    by (simp only: render_denied [OF tier_defined])
  then show "\<exists>r Q. fst (api_resource rc e now (Some k) s) = Inr r \<and>
         status r = 429 \<and>
         js_get (body r) ''retryAfter'' = JNum (WINDOW_SIZE e) \<and>
         js_get (body r) ''tier'' = getTierFromAPIKey k \<and>
         getRateLimitForAPIKey k = JNum Q \<and>
         headers r = [(''X-RateLimit-Limit'', JNum Q),
                      (''X-RateLimit-Remaining'', JNum 0),
                      (''X-RateLimit-Window'', JNum (WINDOW_SIZE e)),
                      (''X-RateLimit-Tier'', getTierFromAPIKey k)]"
    using q by (simp add: js_get_def)
next
  assume k: "k \<noteq> []"
    and a: "js_get (fst (checkRateLimit rc e now k s)) ''allowed'' = JBool True \<and>
            getRateLimitForAPIKey k = JNum Q'"
  from decision_cases [of k rc e now s] a obtain c n where
    d: "fst (checkRateLimit rc e now k s) =
          [(''allowed'', JBool True), (''count'', JNum c),
           (''limit'', JNum Q'), (''tier'', getTierFromAPIKey k), (''remaining'', JNum n)]"
    by (auto simp add: js_get_def)
  have r: "js_get (fst (checkRateLimit rc e now k s)) ''remaining'' = JNum n"
    by (simp add: d js_get_def)
  have "fst (api_resource rc e now (Some k) s) =
          render e [(''allowed'', JBool True), (''count'', JNum c), (''limit'', JNum Q'),
                    (''tier'', getTierFromAPIKey k), (''remaining'', JNum n)]"
    using k d by (simp add: api_resource_render)
  then have "fst (api_resource rc e now (Some k) s) =
     Inr \<lparr>status = 200,
          headers = [(''X-RateLimit-Limit'', JNum Q'), (''X-RateLimit-Remaining'', JNum n),
                     (''X-RateLimit-Window'', JNum (WINDOW_SIZE e)),
                     (''X-RateLimit-Tier'', getTierFromAPIKey k)],
          body = [(''message'', JStr ''Success!''),
                  (''data'', JStr ''Here is your data''),
                  (''rateLimit'', JObject
                     [(''tier'', getTierFromAPIKey k), (''limit'', JNum Q'),
                      (''remaining'', JNum n),
                      (''windowSize'', JNum (WINDOW_SIZE e))])]\<rparr>"
    by (simp only: render_allowed [OF tier_defined])
  then show "\<exists>r. fst (api_resource rc e now (Some k) s) = Inr r \<and>
         status r = 200 \<and>
         headers r = [(''X-RateLimit-Limit'', JNum Q'),
                      (''X-RateLimit-Remaining'',
                       js_get (fst (checkRateLimit rc e now k s)) ''remaining''),
                      (''X-RateLimit-Window'', JNum (WINDOW_SIZE e)),
                      (''X-RateLimit-Tier'', getTierFromAPIKey k)] \<and>
         js_get (body r) ''rateLimit'' = JObject
           [(''tier'', getTierFromAPIKey k), (''limit'', JNum Q'),
            (''remaining'', js_get (fst (checkRateLimit rc e now k s)) ''remaining''),
            (''windowSize'', JNum (WINDOW_SIZE e))]"
    unfolding r by (simp add: js_get_def)
qed

lemma free_first_call:
  "fst (checkRateLimit (redis healthy) None 1700000000000 ''sk_test_free_1''
     \<lparr>counts = Map.empty, ttls = Map.empty\<rparr>)
     = [(''allowed'', JBool True), (''count'', JNum 1), (''limit'', JNum 5),
        (''tier'', JStr ''free''), (''remaining'', JNum 4)]"
proof -
  have "0 < WINDOW_SIZE None" by (simp add: WINDOW_SIZE_def)
  from healthy_call [OF this, where k = "''sk_test_free_1''" and now = 1700000000000
      and s = "\<lparr>counts = Map.empty, ttls = Map.empty\<rparr>"]
  show ?thesis
    by (simp add: window_1700000000000 free_key_window free_quota free_tier count_of_def)
qed

lemma free_sixth_call:
  "fst (checkRateLimit (redis healthy) None 1700000000000 ''sk_test_free_1''
     \<lparr>counts = [''rate_limit:sk_test_free_1:28333333'' \<mapsto> 5],
      ttls = [''rate_limit:sk_test_free_1:28333333'' \<mapsto> 120]\<rparr>)
     = [(''allowed'', JBool False), (''count'', JNum 6), (''limit'', JNum 5),
        (''tier'', JStr ''free'')]"
proof -
  have "0 < WINDOW_SIZE None" by (simp add: WINDOW_SIZE_def)
  from healthy_call [OF this, where k = "''sk_test_free_1''" and now = 1700000000000
      and s = "\<lparr>counts = [''rate_limit:sk_test_free_1:28333333'' \<mapsto> 5],
                ttls = [''rate_limit:sk_test_free_1:28333333'' \<mapsto> 120]\<rparr>"]
  show ?thesis
    by (simp add: window_1700000000000 free_key_window free_quota free_tier count_of_def)
qed

lemma rendering_with_quota_example:
  "(\<exists>r. fst (api_resource (redis healthy) None 1700000000000 (Some ''sk_test_free_1'')
            \<lparr>counts = [''rate_limit:sk_test_free_1:28333333'' \<mapsto> 5],
             ttls = [''rate_limit:sk_test_free_1:28333333'' \<mapsto> 120]\<rparr>) = Inr r \<and>
        status r = 429 \<and>
        js_get (body r) ''retryAfter'' = JNum 60 \<and>
        js_get (body r) ''tier'' = JStr ''free'' \<and>
        headers r = [(''X-RateLimit-Limit'', JNum 5), (''X-RateLimit-Remaining'', JNum 0),
                     (''X-RateLimit-Window'', JNum 60), (''X-RateLimit-Tier'', JStr ''free'')]) \<and>
   (\<exists>r. fst (api_resource (redis healthy) None 1700000000000 (Some ''sk_test_free_1'')
            \<lparr>counts = Map.empty, ttls = Map.empty\<rparr>) = Inr r \<and>
        status r = 200 \<and>
        headers r = [(''X-RateLimit-Limit'', JNum 5), (''X-RateLimit-Remaining'', JNum 4),
                     (''X-RateLimit-Window'', JNum 60), (''X-RateLimit-Tier'', JStr ''free'')])"
proof -
  let ?k = "''sk_test_free_1''"
  let ?s5 = "\<lparr>counts = [''rate_limit:sk_test_free_1:28333333'' \<mapsto> 5],
              ttls = [''rate_limit:sk_test_free_1:28333333'' \<mapsto> 120]\<rparr>"
  let ?s0 = "\<lparr>counts = Map.empty, ttls = Map.empty\<rparr>"
  have k: "?k \<noteq> []" by simp
  have w: "WINDOW_SIZE None = 60" by (simp add: WINDOW_SIZE_def)
  have denied: "js_get (fst (checkRateLimit (redis healthy) None 1700000000000 ?k ?s5))
                  ''allowed'' = JBool False"
    by (simp add: free_sixth_call js_get_def)
  have allowed: "js_get (fst (checkRateLimit (redis healthy) None 1700000000000 ?k ?s0))
                  ''allowed'' = JBool True \<and> getRateLimitForAPIKey ?k = JNum 5"
    by (simp add: free_first_call free_quota js_get_def)
  have r4: "js_get (fst (checkRateLimit (redis healthy) None 1700000000000 ?k ?s0))
                  ''remaining'' = JNum 4"
    by (simp add: free_first_call js_get_def)
  note a = rendering_with_quota [OF k, where rc = "redis healthy" and e = None and now = 1700000000000
      and s = ?s5, THEN conjunct1, rule_format, OF denied]
  note b = rendering_with_quota [OF k, where rc = "redis healthy" and e = None and now = 1700000000000
      and s = ?s0 and Q' = 5, THEN conjunct2, rule_format, OF allowed]
  have "\<exists>r. fst (api_resource (redis healthy) None 1700000000000 (Some ?k) ?s5) = Inr r \<and>
        status r = 429 \<and>
        js_get (body r) ''retryAfter'' = JNum 60 \<and>
        js_get (body r) ''tier'' = JStr ''free'' \<and>
        headers r = [(''X-RateLimit-Limit'', JNum 5), (''X-RateLimit-Remaining'', JNum 0),
                     (''X-RateLimit-Window'', JNum 60), (''X-RateLimit-Tier'', JStr ''free'')]"
    using a by (auto simp add: w free_quota free_tier)
  moreover have "\<exists>r. fst (api_resource (redis healthy) None 1700000000000 (Some ?k) ?s0) = Inr r \<and>
        status r = 200 \<and>
        headers r = [(''X-RateLimit-Limit'', JNum 5), (''X-RateLimit-Remaining'', JNum 4),
                     (''X-RateLimit-Window'', JNum 60), (''X-RateLimit-Tier'', JStr ''free'')]"
    using b by (auto simp add: w free_tier r4)
  ultimately show ?thesis by blast
qed

section \<open>A rejected expiry command\<close>

lemma later_call_keeps_ttl:
  assumes "counts s key = Some c" and "1 \<le> c"
  shows "\<exists>c'. counts (snd (checkRateLimit (redis f) e now k s)) key = Some c' \<and> 1 \<le> c' \<and>
              ttls (snd (checkRateLimit (redis f) e now k s)) key = ttls s key"
proof (cases "redisKey_of k (getCurrentWindow e now) = key")
  case True
  then show ?thesis
    using assms
    by (auto simp add: checkRateLimit_def checkRateLimit_try_def Let_def redis_def
        redis_incr_def redis_expire_def split: option.splits)
next
  case False
  then show ?thesis
    using assms
    by (auto simp add: checkRateLimit_def checkRateLimit_try_def Let_def redis_def
        redis_incr_def redis_expire_def split: option.splits)
qed

lemma later_calls_keep_ttl:
  assumes "counts s key = Some c" and "1 \<le> c"
  shows "ttls (snd (run e cs s)) key = ttls s key"
  using assms
proof (induction cs arbitrary: s c)
  case Nil
  then show ?case by simp
next
  case (Cons call cs)
  obtain now k f where call: "call = (now, k, f)" by (cases call)
  obtain d s1 where r: "checkRateLimit (redis f) e now k s = (d, s1)"
    by (cases "checkRateLimit (redis f) e now k s")
  obtain ds s2 where rr: "run e cs s1 = (ds, s2)" by (cases "run e cs s1")
  from later_call_keeps_ttl [OF Cons.prems, of f e now k] r obtain c' where
    c': "counts s1 key = Some c'" "1 \<le> c'" "ttls s1 key = ttls s key"
    by auto
  have "ttls (snd (run e cs s1)) key = ttls s1 key" using c'(1,2) by (rule Cons.IH)
  then show ?case using call r rr c'(3) by simp
qed

text \<open>
  C10. On a key the store does not hold yet, when the increment resolves (with 1) and
  the expiry command is rejected, the decision is the fail-open object with the count 0,
  while the store now holds the count 1 for the key and no time to live; and whatever
  calls follow, for whatever credentials, times and faults, none of them sets a time to
  live on that key.
\<close>

theorem expiry_failure_undercounts:
  "incr_error f = None \<Longrightarrow> expire_error f = Some err \<Longrightarrow>
   counts s (redisKey_of k (getCurrentWindow e now)) = None \<Longrightarrow>
   ttls s (redisKey_of k (getCurrentWindow e now)) = None \<Longrightarrow>
   checkRateLimit (redis f) e now k s =
     ([(''allowed'', JBool True), (''count'', JNum 0), (''limit'', getRateLimitForAPIKey k),
       (''tier'', getTierFromAPIKey k), (''remaining'', getRateLimitForAPIKey k)],
      s\<lparr>counts := (counts s)(redisKey_of k (getCurrentWindow e now) \<mapsto> 1)\<rparr>) \<and>
   count_of (snd (checkRateLimit (redis f) e now k s)) (redisKey_of k (getCurrentWindow e now))
     = 1 \<and>
   ttls (snd (run e cs (snd (checkRateLimit (redis f) e now k s))))
     (redisKey_of k (getCurrentWindow e now)) = None"
proof -
  let ?key = "redisKey_of k (getCurrentWindow e now)"
  let ?s1 = "s\<lparr>counts := (counts s)(?key \<mapsto> 1)\<rparr>"
  assume f: "incr_error f = None" "expire_error f = Some err"
    and s: "counts s ?key = None" "ttls s ?key = None"
  have i: "incr (redis f) ?key s = (Inr 1, ?s1)"
    using f s by (simp add: redis_def redis_incr_def)
  have x: "expire (redis f) ?key (WINDOW_SIZE e * 2) ?s1 = (Inl err, ?s1)"
    using f by (simp add: redis_def redis_expire_def)
  have r: "checkRateLimit (redis f) e now k s =
     ([(''allowed'', JBool True), (''count'', JNum 0), (''limit'', getRateLimitForAPIKey k),
       (''tier'', getTierFromAPIKey k), (''remaining'', getRateLimitForAPIKey k)], ?s1)"
    by (rule checkRateLimit_expire_rejected [OF i x])
  have "counts ?s1 ?key = Some 1" by simp
  then have "ttls (snd (run e cs ?s1)) ?key = ttls ?s1 ?key"
    by (rule later_calls_keep_ttl) simp
  then show ?thesis using r s by (simp add: count_of_def)
qed

theorem expiry_failure_undercounts_witness:
  "checkRateLimit (redis \<lparr>incr_error = None, expire_error = Some (Error ''ECONNRESET'')\<rparr>)
     None 1700000000000 ''sk_test_free_1'' \<lparr>counts = Map.empty, ttls = Map.empty\<rparr>
     = ([(''allowed'', JBool True), (''count'', JNum 0), (''limit'', JNum 5),
         (''tier'', JStr ''free''), (''remaining'', JNum 5)],
        \<lparr>counts = [''rate_limit:sk_test_free_1:28333333'' \<mapsto> 1], ttls = Map.empty\<rparr>) \<and>
   ttls (snd (run None [(1700000001000, ''sk_test_free_1'', healthy)]
     (snd (checkRateLimit
        (redis \<lparr>incr_error = None, expire_error = Some (Error ''ECONNRESET'')\<rparr>)
        None 1700000000000 ''sk_test_free_1'' \<lparr>counts = Map.empty, ttls = Map.empty\<rparr>))))
     ''rate_limit:sk_test_free_1:28333333'' = None"
proof -
  let ?f = "\<lparr>incr_error = None, expire_error = Some (Error ''ECONNRESET'')\<rparr>"
  let ?s = "\<lparr>counts = Map.empty, ttls = Map.empty\<rparr>"
  have k: "redisKey_of ''sk_test_free_1'' (getCurrentWindow None 1700000000000)
             = ''rate_limit:sk_test_free_1:28333333''"
    by (simp add: window_1700000000000 free_key_window)
  have h: "incr_error ?f = None" "expire_error ?f = Some (Error ''ECONNRESET'')"
    "counts ?s (redisKey_of ''sk_test_free_1'' (getCurrentWindow None 1700000000000)) = None"
    "ttls ?s (redisKey_of ''sk_test_free_1'' (getCurrentWindow None 1700000000000)) = None"
    by simp_all
  note t = expiry_failure_undercounts [OF h,
      where cs = "[(1700000001000, ''sk_test_free_1'', healthy)]"]
  have a: "checkRateLimit (redis ?f) None 1700000000000 ''sk_test_free_1'' ?s
     = ([(''allowed'', JBool True), (''count'', JNum 0), (''limit'', JNum 5),
         (''tier'', JStr ''free''), (''remaining'', JNum 5)],
        \<lparr>counts = [''rate_limit:sk_test_free_1:28333333'' \<mapsto> 1], ttls = Map.empty\<rparr>)"
    using t [THEN conjunct1] by (simp add: k free_quota free_tier)
  have c: "ttls (snd (run None [(1700000001000, ''sk_test_free_1'', healthy)]
     (snd (checkRateLimit (redis ?f) None 1700000000000 ''sk_test_free_1'' ?s))))
     ''rate_limit:sk_test_free_1:28333333'' = None"
    using t [THEN conjunct2, THEN conjunct2] by (simp only: k)
  show ?thesis using a c by (rule conjI)
qed

section \<open>A credential without a quota\<close>

text \<open>
  When the credential's limit is \<open>undefined\<close>, the first \<open>res.setHeader\<close> of the handler
  throws, for every client and whatever the decision is.
\<close>

lemma no_quota_throws:
  assumes "k \<noteq> []" and "getRateLimitForAPIKey k = JUndefined"
  shows "fst (api_resource rc e now (Some k) s) = Inl (Error ''ERR_HTTP_INVALID_HEADER_VALUE'')"
proof -
  have "js_get (fst (checkRateLimit rc e now k s)) ''limit'' = JUndefined"
    using decision_fields [of rc e now k s] assms(2) by auto
  then have "set_headers e (fst (checkRateLimit rc e now k s))
               = Inl (Error ''ERR_HTTP_INVALID_HEADER_VALUE'')"
    by (simp add: set_headers_def setHeader_def)
  then show ?thesis
    using assms(1) by (simp add: api_resource_render render_def)
qed

lemma constructor_quota: "getRateLimitForAPIKey ''constructor'' = JUndefined"
  by (simp add: getRateLimitForAPIKey_def getTierFromAPIKey_def js_or_def js_get_def
      API_KEYS_def TIER_LIMITS_def Object_prototype_def)

lemma constructor_tier: "getTierFromAPIKey ''constructor'' = JBuiltin ''constructor''"
  by (simp add: getTierFromAPIKey_def js_or_def js_get_def API_KEYS_def Object_prototype_def)

lemma constructor_key:
  "redisKey_of ''constructor'' (getCurrentWindow None 1700000000000)
     = ''rate_limit:constructor:28333333''"
  by (simp add: window_1700000000000 redisKey_of_def show_int_def digit_char_def)

text \<open>
  C8 at the credential \<open>constructor\<close>. With the store healthy, \<open>checkRateLimit\<close> returns
  an object whose limit is \<open>undefined\<close>, whose tier is a built-in function and whose
  remaining is NaN, which is no Decision; and the handler does not answer: it throws at
  \<open>res.setHeader\<close>, with the store healthy and with the increment rejected alike, so a
  condition of one request leaves the handler as an error.
\<close>

theorem request_error_escapes:
  "fst (checkRateLimit (redis healthy) None 1700000000000 ''constructor''
     \<lparr>counts = Map.empty, ttls = Map.empty\<rparr>)
     = [(''allowed'', JBool True), (''count'', JNum 1), (''limit'', JUndefined),
        (''tier'', JBuiltin ''constructor''), (''remaining'', JNaN)] \<and>
   fst (api_resource (redis healthy) None 1700000000000 (Some ''constructor'')
     \<lparr>counts = Map.empty, ttls = Map.empty\<rparr>)
     = Inl (Error ''ERR_HTTP_INVALID_HEADER_VALUE'') \<and>
   fst (api_resource (redis \<lparr>incr_error = Some (Error ''ECONNREFUSED''), expire_error = None\<rparr>)
     None 1700000000000 (Some ''constructor'') \<lparr>counts = Map.empty, ttls = Map.empty\<rparr>)
     = Inl (Error ''ERR_HTTP_INVALID_HEADER_VALUE'')"
proof -
  have w: "0 < WINDOW_SIZE None" by (simp add: WINDOW_SIZE_def)
  have k: "''constructor'' \<noteq> []" by simp
  have "fst (checkRateLimit (redis healthy) None 1700000000000 ''constructor''
     \<lparr>counts = Map.empty, ttls = Map.empty\<rparr>)
     = [(''allowed'', JBool True), (''count'', JNum 1), (''limit'', JUndefined),
        (''tier'', JBuiltin ''constructor''), (''remaining'', JNaN)]"
    using healthy_call [OF w, where k = "''constructor''" and now = 1700000000000
      and s = "\<lparr>counts = Map.empty, ttls = Map.empty\<rparr>"]
    by (simp add: constructor_quota constructor_tier constructor_key count_of_def)
  then show ?thesis
    by (simp only: no_quota_throws [OF k constructor_quota])
qed

text \<open>
  C9 at the credential \<open>constructor\<close>, with its counter at 1000: the decision is allowed,
  and it is not rendered as a success status; the handler throws at \<open>res.setHeader\<close> and
  gives no response.
\<close>

theorem allowed_but_not_rendered:
  "js_get (fst (checkRateLimit (redis healthy) None 1700000000000 ''constructor''
     \<lparr>counts = [''rate_limit:constructor:28333333'' \<mapsto> 1000],
      ttls = [''rate_limit:constructor:28333333'' \<mapsto> 120]\<rparr>)) ''allowed'' = JBool True \<and>
   fst (api_resource (redis healthy) None 1700000000000 (Some ''constructor'')
     \<lparr>counts = [''rate_limit:constructor:28333333'' \<mapsto> 1000],
      ttls = [''rate_limit:constructor:28333333'' \<mapsto> 120]\<rparr>)
     = Inl (Error ''ERR_HTTP_INVALID_HEADER_VALUE'') \<and>
   \<not> (\<exists>r. fst (api_resource (redis healthy) None 1700000000000 (Some ''constructor'')
     \<lparr>counts = [''rate_limit:constructor:28333333'' \<mapsto> 1000],
      ttls = [''rate_limit:constructor:28333333'' \<mapsto> 120]\<rparr>) = Inr r \<and> status r = 200)"
proof -
  have w: "0 < WINDOW_SIZE None" by (simp add: WINDOW_SIZE_def)
  have k: "''constructor'' \<noteq> []" by simp
  have "js_get (fst (checkRateLimit (redis healthy) None 1700000000000 ''constructor''
     \<lparr>counts = [''rate_limit:constructor:28333333'' \<mapsto> 1000],
      ttls = [''rate_limit:constructor:28333333'' \<mapsto> 120]\<rparr>)) ''allowed'' = JBool True"
    using healthy_call_fields(2) [OF w, where k = "''constructor''" and now = 1700000000000
      and s = "\<lparr>counts = [''rate_limit:constructor:28333333'' \<mapsto> 1000],
                ttls = [''rate_limit:constructor:28333333'' \<mapsto> 120]\<rparr>"]
    by (simp add: constructor_quota)
  then show ?thesis
    by (simp only: no_quota_throws [OF k constructor_quota]) simp
qed

end
